theory Spec2Isabelle
  imports Complex_Main "HOL-Library.AList"
begin

section \<open>The host process: window manager (src/main/windowManager.ts)\<close>

text \<open>
  The window manager keeps a JavaScript \<open>Map\<close> from window type to \<open>BrowserWindow\<close>.
  At run time a window type is a string: the TypeScript union \<open>'main' | 'floatBall' | 'popup'\<close>
  is erased, and \<open>getWindowConfig\<close> has a \<open>default\<close> branch for every other string.
  The map is an association list, so that the insertion order of the JavaScript map is kept
  (\<open>set\<close> on a present key keeps its place, on a new key appends; that is \<open>AList.update\<close>).

  A \<open>BrowserWindow\<close> is an object of the Electron runtime, which is not part of the
  repository. The model keeps of it what the code reads (\<open>isDestroyed\<close>, \<open>isMinimized\<close>,
  \<open>getPosition\<close>), the listeners the code registers, and the trace of the calls the code makes
  on it. Windows live in a heap (a list); a handle is an index into it, and
  \<open>new BrowserWindow\<close> allocates the next index.
\<close>

type_synonym WindowType = string
type_synonym handle = nat

record webPreferences =
  preload :: string
  sandbox :: "bool option"
  nodeIntegration :: "bool option"
  contextIsolation :: "bool option"

record BrowserWindowConstructorOptions =
  opt_width :: int
  opt_height :: int
  opt_show :: bool
  opt_autoHideMenuBar :: "bool option"
  opt_icon :: "string option"
  opt_frame :: "bool option"
  opt_skipTaskbar :: "bool option"
  opt_transparent :: "bool option"
  opt_resizable :: "bool option"
  opt_alwaysOnTop :: "bool option"
  opt_x :: "int option"
  opt_y :: "int option"
  opt_webPreferences :: webPreferences

record WindowConfig =
  cfg_type :: WindowType
  cfg_options :: BrowserWindowConstructorOptions
  cfg_url :: "string option"
  cfg_file :: "string option"
  cfg_hash :: "string option"

text \<open>What the code reads from its environment: \<open>is.dev\<close>, \<open>process.env\<close>,
  \<open>process.platform\<close>, \<open>__dirname\<close>, the imported icon asset and the primary display.
  \<open>defaultPosition\<close> is where the runtime puts a window created without \<open>x\<close> and \<open>y\<close>.\<close>

record env =
  is_dev :: bool
  ELECTRON_RENDERER_URL :: "string option"
  platform :: string
  dirname :: string
  icon :: string
  workAreaSize :: "int \<times> int"
  defaultPosition :: "int \<times> int"

text \<open>A listener closure registered with \<open>window.on\<close>: \<open>() => window.show()\<close> or
  \<open>() => this.windows.delete(type)\<close>.\<close>

datatype listener = ShowWindow | DeleteEntry WindowType

text \<open>The calls the code makes on a window (and on its \<open>webContents\<close>).\<close>

datatype window_call =
    M_show
  | M_focus
  | M_restore
  | M_close
  | M_setPosition int int
  | M_setIgnoreMouseEvents bool bool
  | M_loadURL string
  | M_loadFile string "string option"
  | M_send string string
  | M_setWindowOpenHandler

record BrowserWindow =
  bw_options :: BrowserWindowConstructorOptions
  destroyed :: bool
  minimized :: bool
  position :: "int \<times> int"
  listeners :: "(string \<times> listener) list"
  calls :: "window_call list"

datatype console_msg = Log string | Error string

record state =
  windows :: "(WindowType \<times> handle) list"
  heap :: "BrowserWindow list"
  console :: "console_msg list"
  opened_external :: "string list"

definition init :: state where
  "init = \<lparr>windows = [], heap = [], console = [], opened_external = []\<rparr>"

subsection \<open>JavaScript values\<close>

text \<open>A string is truthy when it is present and not empty.\<close>

definition truthy :: "string option \<Rightarrow> bool" where
  "truthy v = (case v of None \<Rightarrow> False | Some s \<Rightarrow> s \<noteq> [])"

text \<open>\<open>path.join\<close>; the normalisation of \<open>..\<close> segments is left out, the path names the
  same file.\<close>

definition join :: "string \<Rightarrow> string \<Rightarrow> string" where
  "join dir rel = dir @ ''/'' @ rel"

subsection \<open>The runtime's window objects\<close>

definition window :: "state \<Rightarrow> handle \<Rightarrow> BrowserWindow" where
  "window s h = heap s ! h"

definition update_window :: "handle \<Rightarrow> (BrowserWindow \<Rightarrow> BrowserWindow) \<Rightarrow> state \<Rightarrow> state" where
  "update_window h f s = s\<lparr>heap := (heap s)[h := f (heap s ! h)]\<rparr>"

definition call :: "handle \<Rightarrow> window_call \<Rightarrow> state \<Rightarrow> state" where
  "call h m s = update_window h (\<lambda>w. w\<lparr>calls := calls w @ [m]\<rparr>) s"

definition new_BrowserWindow :: "env \<Rightarrow> BrowserWindowConstructorOptions \<Rightarrow> state \<Rightarrow> handle \<times> state" where
  "new_BrowserWindow e opts s =
     (length (heap s),
      s\<lparr>heap := heap s @
         [\<lparr>bw_options = opts, destroyed = False, minimized = False,
           position = (case (opt_x opts, opt_y opts) of
                         (Some px, Some py) \<Rightarrow> (px, py)
                       | _ \<Rightarrow> defaultPosition e),
           listeners = [], calls = []\<rparr>]\<rparr>)"

definition isDestroyed :: "state \<Rightarrow> handle \<Rightarrow> bool" where
  "isDestroyed s h = destroyed (window s h)"

definition isMinimized :: "state \<Rightarrow> handle \<Rightarrow> bool" where
  "isMinimized s h = minimized (window s h)"

definition getPosition :: "state \<Rightarrow> handle \<Rightarrow> int \<times> int" where
  "getPosition s h = position (window s h)"

definition setPosition :: "handle \<Rightarrow> int \<Rightarrow> int \<Rightarrow> state \<Rightarrow> state" where
  "setPosition h px py s =
     call h (M_setPosition px py) (update_window h (\<lambda>w. w\<lparr>position := (px, py)\<rparr>) s)"

definition restore :: "handle \<Rightarrow> state \<Rightarrow> state" where
  "restore h s = call h M_restore (update_window h (\<lambda>w. w\<lparr>minimized := False\<rparr>) s)"

definition on :: "handle \<Rightarrow> string \<Rightarrow> listener \<Rightarrow> state \<Rightarrow> state" where
  "on h ev l s = update_window h (\<lambda>w. w\<lparr>listeners := listeners w @ [(ev, l)]\<rparr>) s"

subsection \<open>WindowManager\<close>

definition getWindowConfig :: "env \<Rightarrow> WindowType \<Rightarrow> WindowConfig option" where
  "getWindowConfig e t =
    (if t = ''main'' then
       Some \<lparr>cfg_type = ''main'',
         cfg_options = \<lparr>opt_width = 900, opt_height = 670, opt_show = False,
           opt_autoHideMenuBar = Some True,
           opt_icon = (if platform e = ''linux'' then Some (icon e) else None),
           opt_frame = None, opt_skipTaskbar = None, opt_transparent = None,
           opt_resizable = None, opt_alwaysOnTop = None, opt_x = None, opt_y = None,
           opt_webPreferences = \<lparr>preload = join (dirname e) ''../preload/index.js'',
             sandbox = Some False, nodeIntegration = None, contextIsolation = None\<rparr>\<rparr>,
         cfg_url = (if is_dev e \<and> truthy (ELECTRON_RENDERER_URL e)
                    then Some (the (ELECTRON_RENDERER_URL e) @ ''/index.html'') else None),
         cfg_file = (if \<not> is_dev e \<or> \<not> truthy (ELECTRON_RENDERER_URL e)
                     then Some (join (dirname e) ''../renderer/index.html'') else None),
         cfg_hash = None\<rparr>
     else if t = ''floatBall'' then
       (let (width, height) = workAreaSize e in
        Some \<lparr>cfg_type = ''floatBall'',
          cfg_options = \<lparr>opt_width = 190, opt_height = 170, opt_show = True,
            opt_autoHideMenuBar = None, opt_icon = None,
            opt_frame = Some False, opt_skipTaskbar = Some True, opt_transparent = Some True,
            opt_resizable = Some False, opt_alwaysOnTop = Some True,
            opt_x = Some (width - 220), opt_y = Some (height - 180),
            opt_webPreferences = \<lparr>preload = join (dirname e) ''../preload/index.js'',
              sandbox = None, nodeIntegration = Some True, contextIsolation = Some True\<rparr>\<rparr>,
          cfg_url = (if is_dev e \<and> truthy (ELECTRON_RENDERER_URL e)
                     then Some (the (ELECTRON_RENDERER_URL e) @ ''/float.html'') else None),
          cfg_file = (if \<not> is_dev e \<or> \<not> truthy (ELECTRON_RENDERER_URL e)
                      then Some (join (dirname e) ''../renderer/float.html'') else None),
          cfg_hash = None\<rparr>)
     else if t = ''popup'' then
       Some \<lparr>cfg_type = ''popup'',
         cfg_options = \<lparr>opt_width = 600, opt_height = 400, opt_show = False,
           opt_autoHideMenuBar = Some True,
           opt_icon = (if platform e = ''linux'' then Some (icon e) else None),
           opt_frame = None, opt_skipTaskbar = None, opt_transparent = None,
           opt_resizable = None, opt_alwaysOnTop = None, opt_x = None, opt_y = None,
           opt_webPreferences = \<lparr>preload = join (dirname e) ''../preload/index.js'',
             sandbox = Some False, nodeIntegration = None, contextIsolation = None\<rparr>\<rparr>,
         cfg_url = (if is_dev e \<and> truthy (ELECTRON_RENDERER_URL e)
                    then Some (the (ELECTRON_RENDERER_URL e) @ ''/float.html#popup'') else None),
         cfg_file = (if \<not> is_dev e \<or> \<not> truthy (ELECTRON_RENDERER_URL e)
                     then Some (join (dirname e) ''../renderer/float.html'') else None),
         cfg_hash = Some ''popup''\<rparr>
     else None)"

definition setupWindowEvents :: "handle \<Rightarrow> WindowType \<Rightarrow> state \<Rightarrow> state" where
  "setupWindowEvents h t s =
    (let s1 = (if t = ''main''
               then call h M_setWindowOpenHandler (on h ''ready-to-show'' ShowWindow s)
               else s);
         s2 = (if t = ''popup'' then on h ''ready-to-show'' ShowWindow s1 else s1);
         s3 = (if t = ''floatBall'' then call h (M_setIgnoreMouseEvents True True) s2 else s2)
     in s3)"

definition loadContent :: "env \<Rightarrow> WindowConfig \<Rightarrow> handle \<Rightarrow> state \<Rightarrow> state" where
  "loadContent e config h s =
    (if is_dev e then
       call h (M_loadURL (case cfg_url config of Some u \<Rightarrow> u | None \<Rightarrow> [])) s
     else if truthy (cfg_file config) then
       (if truthy (cfg_hash config)
        then call h (M_loadFile (the (cfg_file config)) (cfg_hash config)) s
        else call h (M_loadFile (the (cfg_file config)) None) s)
     else s)"

definition createOrGetWindow :: "env \<Rightarrow> state \<Rightarrow> WindowType \<Rightarrow> handle option \<times> state" where
  "createOrGetWindow e s t =
    (let existing = map_of (windows s) t in
     if existing \<noteq> None \<and> \<not> isDestroyed s (the existing) then (existing, s)
     else
       (case getWindowConfig e t of
          None \<Rightarrow> (None, s\<lparr>console := console s @ [Error (''Unknown window type: '' @ t)]\<rparr>)
        | Some config \<Rightarrow>
            (let (w, s1) = new_BrowserWindow e (cfg_options config) s;
                 s2 = setupWindowEvents w t s1;
                 s3 = loadContent e config w s2;
                 s4 = on w ''closed'' (DeleteEntry t) s3;
                 s5 = s4\<lparr>windows := AList.update t w (windows s4)\<rparr>
             in (Some w, s5))))"

definition getWindow :: "state \<Rightarrow> WindowType \<Rightarrow> handle option" where
  "getWindow s t =
    (let w = map_of (windows s) t in
     if w \<noteq> None \<and> \<not> isDestroyed s (the w) then w else None)"

definition closeWindow :: "state \<Rightarrow> WindowType \<Rightarrow> state" where
  "closeWindow s t =
    (let w = map_of (windows s) t in
     if w \<noteq> None \<and> \<not> isDestroyed s (the w)
     then (let s1 = call (the w) M_close s in s1\<lparr>windows := AList.delete t (windows s1)\<rparr>)
     else s)"

definition closeAllWindows :: "state \<Rightarrow> state" where
  "closeAllWindows s =
    (let s1 = fold (\<lambda>(t, w) s'. if \<not> isDestroyed s' w then call w M_close s' else s')
                (windows s) s
     in s1\<lparr>windows := []\<rparr>)"

definition getAllWindows :: "state \<Rightarrow> handle list" where
  "getAllWindows s = filter (\<lambda>w. \<not> isDestroyed s w) (map snd (windows s))"

subsection \<open>Events of the runtime\<close>

text \<open>The runtime calls the listeners of an event in the order of their registration.
  When a window is destroyed, \<open>isDestroyed\<close> becomes true and \<open>'closed'\<close> is emitted.
  \<open>close()\<close> itself only asks for the window to be closed: it is recorded in the trace,
  and the destruction is an event of its own.\<close>

definition run_listener :: "handle \<Rightarrow> listener \<Rightarrow> state \<Rightarrow> state" where
  "run_listener h l s =
    (case l of
       ShowWindow \<Rightarrow> call h M_show s
     | DeleteEntry t \<Rightarrow> s\<lparr>windows := AList.delete t (windows s)\<rparr>)"

definition emit :: "handle \<Rightarrow> string \<Rightarrow> state \<Rightarrow> state" where
  "emit h ev s =
     fold (run_listener h) (map snd (filter (\<lambda>p. fst p = ev) (listeners (window s h)))) s"

definition window_closed :: "handle \<Rightarrow> state \<Rightarrow> state" where
  "window_closed h s = emit h ''closed'' (update_window h (\<lambda>w. w\<lparr>destroyed := True\<rparr>) s)"

definition ready_to_show :: "handle \<Rightarrow> state \<Rightarrow> state" where
  "ready_to_show h s = emit h ''ready-to-show'' s"

definition window_minimized :: "handle \<Rightarrow> state \<Rightarrow> state" where
  "window_minimized h s = update_window h (\<lambda>w. w\<lparr>minimized := True\<rparr>) s"

text \<open>The handler given to \<open>setWindowOpenHandler\<close>: \<open>shell.openExternal(details.url)\<close>,
  and the new window is denied.\<close>

definition window_open :: "handle \<Rightarrow> string \<Rightarrow> state \<Rightarrow> state" where
  "window_open h u s =
    (if M_setWindowOpenHandler \<in> set (calls (window s h))
     then s\<lparr>opened_external := opened_external s @ [u]\<rparr> else s)"

section \<open>The host half of the bridge: IpcMainService (src/services/main.ts)\<close>

text \<open>A JavaScript number is modelled by a real: every finite double is one. \<open>NaN\<close> and the
  infinities are not modelled. \<open>Math.round\<close> gives the nearest integer, the larger one
  at a tie.\<close>

definition Math_round :: "real \<Rightarrow> int" where
  "Math_round v = \<lfloor>v + 1 / 2\<rfloor>"

record SetPositionArgs =
  args_x :: real
  args_y :: real

record RestoreMainOptions =
  route :: "string option"

record RouteArgs =
  args_route :: string

definition handlePing :: "state \<Rightarrow> state" where
  "handlePing s = s\<lparr>console := console s @ [Log ''pong'']\<rparr>"

definition handleOpenPopup :: "env \<Rightarrow> state \<Rightarrow> state" where
  "handleOpenPopup e s =
     snd (createOrGetWindow e (s\<lparr>console := console s @ [Log ''Opening popup'']\<rparr>) ''popup'')"

definition handleMouseEnter :: "state \<Rightarrow> state" where
  "handleMouseEnter s =
    (case getWindow s ''floatBall'' of
       Some floatBallWindow \<Rightarrow> call floatBallWindow (M_setIgnoreMouseEvents False True) s
     | None \<Rightarrow> s)"

definition handleMouseLeave :: "state \<Rightarrow> state" where
  "handleMouseLeave s =
    (case getWindow s ''floatBall'' of
       Some floatBallWindow \<Rightarrow> call floatBallWindow (M_setIgnoreMouseEvents True True) s
     | None \<Rightarrow> s)"

definition handleGetPosition :: "state \<Rightarrow> int \<times> int" where
  "handleGetPosition s =
    (case getWindow s ''floatBall'' of
       Some floatBallWindow \<Rightarrow> getPosition s floatBallWindow
     | None \<Rightarrow> (0, 0))"

definition handleSetPosition :: "state \<Rightarrow> SetPositionArgs \<Rightarrow> state" where
  "handleSetPosition s args =
    (case getWindow s ''floatBall'' of
       Some floatBallWindow \<Rightarrow>
         setPosition floatBallWindow (Math_round (args_x args)) (Math_round (args_y args)) s
     | None \<Rightarrow> s)"

text \<open>\<open>options?.route\<close>\<close>

definition optional_route :: "RestoreMainOptions option \<Rightarrow> string option" where
  "optional_route options = (case options of None \<Rightarrow> None | Some opts \<Rightarrow> route opts)"

definition handleRestoreMain :: "env \<Rightarrow> state \<Rightarrow> RestoreMainOptions option \<Rightarrow> state" where
  "handleRestoreMain e s options =
    (let (mainWindow, s1) =
           (case getWindow s ''main'' of
              Some w \<Rightarrow> (Some w, s)
            | None \<Rightarrow> createOrGetWindow e s ''main'')
     in case mainWindow of
          None \<Rightarrow> s1
        | Some w \<Rightarrow>
            (let s2 = (if isMinimized s1 w then restore w s1 else s1);
                 s3 = call w M_show s2;
                 s4 = call w M_focus s3
             in if truthy (optional_route options)
                then call w (M_send ''app:route'' (the (optional_route options))) s4
                else s4))"

definition handleRoute :: "state \<Rightarrow> RouteArgs \<Rightarrow> state" where
  "handleRoute s args =
    (case getWindow s ''main'' of
       Some mainWindow \<Rightarrow> call mainWindow (M_send ''app:route'' (args_route args)) s
     | None \<Rightarrow> s)"

section \<open>The floating widget (src/renderer/float/src/App.tsx)\<close>

text \<open>
  The component's state is \<open>isExpanded\<close> and six refs. Beside them the model keeps what the
  component has handed to its surroundings: the messages sent through \<open>ipcRenderService\<close>,
  the \<open>getPosition\<close> promises not yet resolved, and the pairs of \<open>mousemove\<close> and
  \<open>mouseup\<close> listeners attached to the document. The \<open>then\<close> callback and the listeners it
  attaches are closures over the \<open>isExpanded\<close> of the render in which the button was
  pressed; that captured value is what a pending promise and an attached pair carry.
\<close>

datatype ipc_msg =
    Ipc_getPosition
  | Ipc_setPosition real real
  | Ipc_mouseEnter
  | Ipc_mouseLeave
  | Ipc_restoreMain "RestoreMainOptions option"

record MouseEvent =
  screenX :: real
  screenY :: real

record FloatBall =
  isExpanded :: bool
  isDraggingRef :: bool
  initialMouseXRef :: real
  initialMouseYRef :: real
  mouseDownTimeRef :: int
  windowInitialXRef :: real
  windowInitialYRef :: real
  ipc_sent :: "ipc_msg list"
  pending :: "bool list"
  document_listeners :: "bool list"

definition FloatBall_init :: FloatBall where
  "FloatBall_init =
     \<lparr>isExpanded = False, isDraggingRef = False, initialMouseXRef = 0, initialMouseYRef = 0,
      mouseDownTimeRef = 0, windowInitialXRef = 0, windowInitialYRef = 0,
      ipc_sent = [], pending = [], document_listeners = []\<rparr>"

text \<open>\<open>handleMouseDown\<close> up to the call of \<open>getPosition\<close>; \<open>now\<close> is \<open>Date.now()\<close>.\<close>

definition handleMouseDown :: "FloatBall \<Rightarrow> MouseEvent \<Rightarrow> int \<Rightarrow> FloatBall" where
  "handleMouseDown fb e now =
    (if isExpanded fb then fb
     else fb\<lparr>isDraggingRef := False,
             initialMouseXRef := screenX e,
             initialMouseYRef := screenY e,
             mouseDownTimeRef := now,
             ipc_sent := ipc_sent fb @ [Ipc_getPosition],
             pending := pending fb @ [isExpanded fb]\<rparr>)"

text \<open>The \<open>then\<close> callback of the oldest pending promise, called with the reply.\<close>

definition position_received :: "FloatBall \<Rightarrow> real \<times> real \<Rightarrow> FloatBall" where
  "position_received fb p =
    (case pending fb of
       [] \<Rightarrow> fb
     | captured # rest \<Rightarrow>
         fb\<lparr>windowInitialXRef := fst p,
            windowInitialYRef := snd p,
            document_listeners := document_listeners fb @ [captured],
            pending := rest\<rparr>)"

definition handleMouseMove :: "FloatBall \<Rightarrow> MouseEvent \<Rightarrow> FloatBall" where
  "handleMouseMove fb moveEvent =
    (let deltaX = screenX moveEvent - initialMouseXRef fb;
         deltaY = screenY moveEvent - initialMouseYRef fb;
         fb1 = (if \<not> isDraggingRef fb \<and> (\<bar>deltaX\<bar> > 5 \<or> \<bar>deltaY\<bar> > 5)
                then fb\<lparr>isDraggingRef := True\<rparr> else fb)
     in if isDraggingRef fb1
        then (let newX = windowInitialXRef fb1 + deltaX;
                  newY = windowInitialYRef fb1 + deltaY
              in fb1\<lparr>ipc_sent := ipc_sent fb1 @ [Ipc_setPosition newX newY]\<rparr>)
        else fb1)"

text \<open>\<open>handleMouseUp\<close> of a pair whose closure captured \<open>captured\<close>; the removal of the pair is
  in \<open>document_mouseup\<close>.\<close>

definition handleMouseUp :: "int \<Rightarrow> bool \<Rightarrow> FloatBall \<Rightarrow> FloatBall" where
  "handleMouseUp now captured fb =
    (if \<not> isDraggingRef fb \<and> now - mouseDownTimeRef fb < 200
     then fb\<lparr>isExpanded := \<not> captured\<rparr> else fb)"

text \<open>The document dispatches an event to every attached pair.\<close>

definition document_mousemove :: "FloatBall \<Rightarrow> MouseEvent \<Rightarrow> FloatBall" where
  "document_mousemove fb e = fold (\<lambda>_ fb'. handleMouseMove fb' e) (document_listeners fb) fb"

definition document_mouseup :: "FloatBall \<Rightarrow> int \<Rightarrow> FloatBall" where
  "document_mouseup fb now =
     (fold (handleMouseUp now) (document_listeners fb) fb)\<lparr>document_listeners := []\<rparr>"

definition handleMouseEnter_fb :: "FloatBall \<Rightarrow> FloatBall" where
  "handleMouseEnter_fb fb = fb\<lparr>ipc_sent := ipc_sent fb @ [Ipc_mouseEnter]\<rparr>"

definition handleMouseLeave_fb :: "FloatBall \<Rightarrow> FloatBall" where
  "handleMouseLeave_fb fb = fb\<lparr>ipc_sent := ipc_sent fb @ [Ipc_mouseLeave]\<rparr>"

definition handleAction :: "FloatBall \<Rightarrow> string \<Rightarrow> FloatBall" where
  "handleAction fb action =
    (let fb1 =
       (if action = ''restore'' then fb\<lparr>ipc_sent := ipc_sent fb @ [Ipc_restoreMain None]\<rparr>
        else if action = ''dashboard''
        then fb\<lparr>ipc_sent := ipc_sent fb @ [Ipc_restoreMain (Some \<lparr>route = Some ''INDEX''\<rparr>)]\<rparr>
        else if action = ''settings''
        then fb\<lparr>ipc_sent := ipc_sent fb @ [Ipc_restoreMain (Some \<lparr>route = Some ''SETTINGS''\<rparr>)]\<rparr>
        else fb)
     in fb1\<lparr>isExpanded := False\<rparr>)"

text \<open>A pointer cycle as the sequence of events the widget sees.\<close>

datatype event =
    Down MouseEvent int
  | Reply "real \<times> real"
  | Move MouseEvent
  | Up int

fun step :: "FloatBall \<Rightarrow> event \<Rightarrow> FloatBall" where
  "step fb (Down e now) = handleMouseDown fb e now"
| "step fb (Reply p) = position_received fb p"
| "step fb (Move e) = document_mousemove fb e"
| "step fb (Up now) = document_mouseup fb now"

definition run :: "FloatBall \<Rightarrow> event list \<Rightarrow> FloatBall" where
  "run fb evs = foldl step fb evs"

text \<open>The reply the host gives to a position query, as the widget receives it.\<close>

definition position_reply :: "state \<Rightarrow> real \<times> real" where
  "position_reply s = (real_of_int (fst (handleGetPosition s)), real_of_int (snd (handleGetPosition s)))"

section \<open>Auxiliary definitions for the statements\<close>

text \<open>The window types \<open>getWindowConfig\<close> has a case for.\<close>

definition known_types :: "WindowType set" where
  "known_types = {''main'', ''floatBall'', ''popup''}"

text \<open>The invariant of the registry: every entry is for a known type, points to an allocated
  window, and that window carries the destruction listener of its entry. \<open>reachable\<close> are
  the states the host process can be in: it starts from the empty registry, and every step is
  a call of the window manager, a handler of the bridge, or an event of the runtime.\<close>

definition wf_state :: "state \<Rightarrow> bool" where
  "wf_state s =
    (\<forall>(t, h) \<in> set (windows s).
       t \<in> known_types \<and> h < length (heap s) \<and>
       (''closed'', DeleteEntry t) \<in> set (listeners (window s h)))"

inductive reachable :: "env \<Rightarrow> state \<Rightarrow> bool" for e :: env where
  reach_init: "reachable e init"
| reach_createOrGetWindow: "reachable e s \<Longrightarrow> reachable e (snd (createOrGetWindow e s t))"
| reach_closeWindow: "reachable e s \<Longrightarrow> reachable e (closeWindow s t)"
| reach_closeAllWindows: "reachable e s \<Longrightarrow> reachable e (closeAllWindows s)"
| reach_window_closed: "reachable e s \<Longrightarrow> h < length (heap s) \<Longrightarrow> reachable e (window_closed h s)"
| reach_ready_to_show: "reachable e s \<Longrightarrow> h < length (heap s) \<Longrightarrow> reachable e (ready_to_show h s)"
| reach_window_minimized: "reachable e s \<Longrightarrow> h < length (heap s) \<Longrightarrow> reachable e (window_minimized h s)"
| reach_window_open: "reachable e s \<Longrightarrow> h < length (heap s) \<Longrightarrow> reachable e (window_open h u s)"
| reach_handlePing: "reachable e s \<Longrightarrow> reachable e (handlePing s)"
| reach_handleOpenPopup: "reachable e s \<Longrightarrow> reachable e (handleOpenPopup e s)"
| reach_handleMouseEnter: "reachable e s \<Longrightarrow> reachable e (handleMouseEnter s)"
| reach_handleMouseLeave: "reachable e s \<Longrightarrow> reachable e (handleMouseLeave s)"
| reach_handleSetPosition: "reachable e s \<Longrightarrow> reachable e (handleSetPosition s args)"
| reach_handleRestoreMain: "reachable e s \<Longrightarrow> reachable e (handleRestoreMain e s options)"
| reach_handleRoute: "reachable e s \<Longrightarrow> reachable e (handleRoute s rargs)"

text \<open>The object a creation of type \<open>t\<close> with configuration \<open>c\<close> leaves in the heap: the
  steps of \<open>createOrGetWindow\<close> between \<open>new BrowserWindow\<close> and the registration of the
  \<open>'closed'\<close> listener, run on the first window of an empty heap.\<close>

definition created_window :: "env \<Rightarrow> WindowType \<Rightarrow> WindowConfig \<Rightarrow> BrowserWindow" where
  "created_window e t c =
     window (on 0 ''closed'' (DeleteEntry t)
       (loadContent e c 0 (setupWindowEvents 0 t
          (snd (new_BrowserWindow e (cfg_options c) init))))) 0"

text \<open>The first statements of \<open>handleRestoreMain\<close>: look the main window up, create it when
  there is none.\<close>

definition ensure_main :: "env \<Rightarrow> state \<Rightarrow> handle option \<times> state" where
  "ensure_main e s =
     (case getWindow s ''main'' of
        Some w \<Rightarrow> (Some w, s)
      | None \<Rightarrow> createOrGetWindow e s ''main'')"

text \<open>A packaged application on Linux, as an environment to evaluate in.\<close>

definition production_env :: env where
  "production_env =
     \<lparr>is_dev = False, ELECTRON_RENDERER_URL = None, platform = ''linux'',
      dirname = ''/app/out/main'', icon = ''icon.png'', workAreaSize = (1920, 1040),
      defaultPosition = (510, 185)\<rparr>"

text \<open>The widget between two pointer cycles: collapsed, no position query under way, no
  listener on the document.\<close>

definition idle :: "FloatBall \<Rightarrow> bool" where
  "idle fb \<longleftrightarrow> \<not> isExpanded fb \<and> pending fb = [] \<and> document_listeners fb = []"

text \<open>The state in which tracking starts: the button was pressed on the idle widget at \<open>e\<close>
  and time \<open>t0\<close>, and the position \<open>p\<close> has arrived.\<close>

definition armed :: "FloatBall \<Rightarrow> MouseEvent \<Rightarrow> int \<Rightarrow> real \<times> real \<Rightarrow> FloatBall" where
  "armed fb e t0 p =
     fb\<lparr>isDraggingRef := False, initialMouseXRef := screenX e, initialMouseYRef := screenY e,
        mouseDownTimeRef := t0, ipc_sent := ipc_sent fb @ [Ipc_getPosition],
        windowInitialXRef := fst p, windowInitialYRef := snd p,
        document_listeners := [False]\<rparr>"

section \<open>Window objects: what a call changes\<close>

lemma windows_update_window [simp]: "windows (update_window h f s) = windows s"
  by (simp add: update_window_def)

lemma length_heap_update_window [simp]: "length (heap (update_window h f s)) = length (heap s)"
  by (simp add: update_window_def)

lemma window_update_window:
  "window (update_window h f s) h' =
     (if h' = h \<and> h < length (heap s) then f (window s h) else window s h')"
  by (cases "h < length (heap s)")
     (simp_all add: update_window_def window_def nth_list_update list_update_beyond)

lemma windows_call [simp]: "windows (call h m s) = windows s"
  by (simp add: call_def)

lemma length_heap_call [simp]: "length (heap (call h m s)) = length (heap s)"
  by (simp add: call_def)

lemma calls_call:
  "h < length (heap s) \<Longrightarrow> calls (window (call h m s) h) = calls (window s h) @ [m]"
  by (simp add: call_def window_update_window)

lemma isDestroyed_call [simp]: "isDestroyed (call h m s) h' = isDestroyed s h'"
  by (simp add: isDestroyed_def call_def window_update_window)

lemma isMinimized_call [simp]: "isMinimized (call h m s) h' = isMinimized s h'"
  by (simp add: isMinimized_def call_def window_update_window)

lemma isDestroyed_windows_update [simp]: "isDestroyed (s\<lparr>windows := ws\<rparr>) h = isDestroyed s h"
  by (simp add: isDestroyed_def window_def)

lemma isDestroyed_restore [simp]: "isDestroyed (restore h s) h' = isDestroyed s h'"
  by (simp add: restore_def isDestroyed_def call_def window_update_window)

lemma getWindow_eq_Some:
  "getWindow s t = Some h \<longleftrightarrow> map_of (windows s) t = Some h \<and> \<not> isDestroyed s h"
  by (auto simp: getWindow_def Let_def)

lemma getWindow_eq_None:
  "getWindow s t = None \<longleftrightarrow> (\<forall>h. map_of (windows s) t = Some h \<longrightarrow> isDestroyed s h)"
  by (auto simp: getWindow_def Let_def)

lemma getWindow_call [simp]: "getWindow (call h m s) t = getWindow s t"
  by (simp add: getWindow_def)

lemma getWindow_init [simp]: "getWindow init t = None"
  by (simp add: getWindow_def init_def)

lemma restore_props:
  assumes "h < length (heap s)"
  shows "calls (window (restore h s) h) = calls (window s h) @ [M_restore]"
    and "\<not> isMinimized (restore h s) h"
    and "getWindow (restore h s) t = getWindow s t"
    and "length (heap (restore h s)) = length (heap s)"
  using assms
  by (simp_all add: getWindow_def)
     (simp_all add: restore_def call_def window_update_window isMinimized_def)

lemma map_of_None_keys: "map_of al k = None \<longleftrightarrow> k \<notin> fst ` set al"
  by (simp add: map_of_eq_None_iff)

lemma set_update_subset: "set (AList.update k v al) \<subseteq> insert (k, v) (set al)"
  by (induction al) auto

lemma set_delete_subset: "set (AList.delete k al) \<subseteq> set al"
  by (auto simp: AList.delete_eq)

section \<open>The three ways through createOrGetWindow\<close>

lemma getWindowConfig_None: "getWindowConfig e t = None \<longleftrightarrow> t \<notin> known_types"
  by (simp add: getWindowConfig_def known_types_def split: prod.splits)

lemma createOrGetWindow_existing:
  "getWindow s t = Some h \<Longrightarrow> createOrGetWindow e s t = (Some h, s)"
  by (auto simp: createOrGetWindow_def getWindow_def Let_def split: if_splits)

lemma createOrGetWindow_unknown:
  "getWindow s t = None \<Longrightarrow> getWindowConfig e t = None \<Longrightarrow>
   createOrGetWindow e s t =
     (None, s\<lparr>console := console s @ [Error (''Unknown window type: '' @ t)]\<rparr>)"
  by (auto simp: createOrGetWindow_def getWindow_def Let_def split: if_splits)

lemma createOrGetWindow_create:
  assumes "getWindow s t = None" and "getWindowConfig e t = Some c"
  shows "createOrGetWindow e s t =
    (Some (length (heap s)),
     s\<lparr>heap := heap s @ [created_window e t c],
       windows := AList.update t (length (heap s)) (windows s)\<rparr>)"
proof -
  have live: "\<not> (map_of (windows s) t \<noteq> None \<and> \<not> isDestroyed s (the (map_of (windows s) t)))"
    using assms(1) by (auto simp: getWindow_def Let_def split: if_splits)
  show ?thesis
    unfolding createOrGetWindow_def Let_def
    apply (subst if_not_P[OF live])
    apply (simp add: assms(2) new_BrowserWindow_def created_window_def init_def
       setupWindowEvents_def loadContent_def Let_def call_def on_def update_window_def window_def)
    done
qed

lemma createOrGetWindow_stored:
  assumes "createOrGetWindow e s t = (Some h, s1)"
  shows "map_of (windows s1) t = Some h"
  using assms
  by (auto simp: createOrGetWindow_def Let_def new_BrowserWindow_def update_conv'
           split: if_splits option.splits prod.splits)

lemma created_window_destroyed [simp]: "destroyed (created_window e t c) = False"
  by (simp add: created_window_def new_BrowserWindow_def init_def setupWindowEvents_def
      loadContent_def Let_def call_def on_def update_window_def window_def)

lemma created_window_minimized [simp]: "minimized (created_window e t c) = False"
  by (simp add: created_window_def new_BrowserWindow_def init_def setupWindowEvents_def
      loadContent_def Let_def call_def on_def update_window_def window_def)

lemma created_window_listeners:
  "(''closed'', DeleteEntry t) \<in> set (listeners (created_window e t c))"
  by (simp add: created_window_def new_BrowserWindow_def init_def setupWindowEvents_def
      loadContent_def Let_def call_def on_def update_window_def window_def)

section \<open>The invariant of the registry\<close>

lemma map_of_wf:
  assumes "wf_state s" and "map_of (windows s) t = Some h"
  shows "t \<in> known_types" and "h < length (heap s)"
    and "(''closed'', DeleteEntry t) \<in> set (listeners (window s h))"
  using assms map_of_SomeD[OF assms(2)] by (auto simp: wf_state_def)

lemma wf_state_init: "wf_state init"
  by (simp add: wf_state_def init_def)

lemma wf_state_update_window:
  assumes "wf_state s" and "\<And>w. set (listeners w) \<subseteq> set (listeners (f w))"
  shows "wf_state (update_window h f s)"
  using assms(1) subsetD[OF assms(2)] unfolding wf_state_def
  by (fastforce simp: window_update_window)

lemma wf_state_call: "wf_state s \<Longrightarrow> wf_state (call h m s)"
  unfolding call_def by (rule wf_state_update_window) auto

lemma wf_state_setPosition: "wf_state s \<Longrightarrow> wf_state (setPosition h px py s)"
  unfolding setPosition_def by (intro wf_state_call wf_state_update_window) auto

lemma wf_state_restore: "wf_state s \<Longrightarrow> wf_state (restore h s)"
  unfolding restore_def by (intro wf_state_call wf_state_update_window) auto

lemma wf_state_window_minimized: "wf_state s \<Longrightarrow> wf_state (window_minimized h s)"
  unfolding window_minimized_def by (rule wf_state_update_window) auto

lemma wf_state_windows_subset:
  assumes "wf_state s" and "set ws \<subseteq> set (windows s)"
  shows "wf_state (s\<lparr>windows := ws\<rparr>)"
  using assms unfolding wf_state_def by (auto simp: window_def)

lemma wf_state_console: "wf_state (s\<lparr>console := c\<rparr>) = wf_state s"
  by (simp add: wf_state_def window_def)

lemma wf_state_opened_external: "wf_state (s\<lparr>opened_external := c\<rparr>) = wf_state s"
  by (simp add: wf_state_def window_def)

lemma wf_state_createOrGetWindow:
  assumes "wf_state s"
  shows "wf_state (snd (createOrGetWindow e s t))"
proof (cases "getWindow s t")
  case (Some h)
  then show ?thesis using assms by (simp add: createOrGetWindow_existing)
next
  case None
  show ?thesis
  proof (cases "getWindowConfig e t")
    case N: None
    then show ?thesis using None assms
      by (simp add: createOrGetWindow_unknown wf_state_console)
  next
    case (Some c)
    then have known: "t \<in> known_types"
      using getWindowConfig_None[of e t] by auto
    have "\<And>t' h'. (t', h') \<in> set (AList.update t (length (heap s)) (windows s)) \<Longrightarrow>
            (t', h') = (t, length (heap s)) \<or> (t', h') \<in> set (windows s)"
      using set_update_subset[of t "length (heap s)" "windows s"] by auto
    then show ?thesis using assms known
      unfolding createOrGetWindow_create[OF None Some] wf_state_def
      by (fastforce simp: window_def nth_append created_window_listeners)
  qed
qed

lemma wf_state_closeWindow: "wf_state s \<Longrightarrow> wf_state (closeWindow s t)"
  unfolding closeWindow_def Let_def
  by (simp add: wf_state_windows_subset wf_state_call set_delete_subset)

lemma wf_state_closeAllWindows: "wf_state (closeAllWindows s)"
  by (simp add: closeAllWindows_def wf_state_def)

lemma wf_state_run_listener: "wf_state s \<Longrightarrow> wf_state (run_listener h l s)"
  by (cases l)
     (auto simp: run_listener_def intro!: wf_state_call wf_state_windows_subset set_delete_subset)

lemma wf_state_emit: "wf_state s \<Longrightarrow> wf_state (emit h ev s)"
proof -
  have "wf_state s' \<Longrightarrow> wf_state (fold (run_listener h) ls s')" for ls s'
    by (induction ls arbitrary: s') (auto intro: wf_state_run_listener)
  then show "wf_state s \<Longrightarrow> wf_state (emit h ev s)"
    by (simp add: emit_def)
qed

lemma wf_state_window_closed: "wf_state s \<Longrightarrow> wf_state (window_closed h s)"
  unfolding window_closed_def by (intro wf_state_emit wf_state_update_window) auto

lemma wf_state_handleRestoreMain:
  assumes "wf_state s"
  shows "wf_state (handleRestoreMain e s options)"
proof -
  obtain mw s1 where c: "ensure_main e s = (mw, s1)"
    by (cases "ensure_main e s")
  have "wf_state s1"
    using c assms wf_state_createOrGetWindow[OF assms, of e "''main''"]
    by (auto simp: ensure_main_def split: option.splits)
  then show ?thesis
    unfolding handleRestoreMain_def ensure_main_def[symmetric] c
    by (auto simp: Let_def intro!: wf_state_call wf_state_restore split: option.splits)
qed

text \<open>Every state the host process reaches satisfies the invariant.\<close>

lemma reachable_wf_state: "reachable e s \<Longrightarrow> wf_state s"
proof (induction rule: reachable.induct)
  case reach_init
  show ?case by (rule wf_state_init)
next
  case (reach_handleOpenPopup s)
  then show ?case
    unfolding handleOpenPopup_def
    by (intro wf_state_createOrGetWindow) (simp add: wf_state_console)
qed (simp_all add: wf_state_createOrGetWindow wf_state_closeWindow wf_state_closeAllWindows
       wf_state_window_closed wf_state_emit ready_to_show_def wf_state_window_minimized
       window_open_def wf_state_opened_external handlePing_def wf_state_console
       handleMouseEnter_def handleMouseLeave_def handleSetPosition_def handleRoute_def
       wf_state_call wf_state_setPosition wf_state_handleRestoreMain split: option.splits)

section \<open>Running the destruction listeners\<close>

lemma keys_run_listener:
  "fst ` set (windows (run_listener h l s)) \<subseteq> fst ` set (windows s)"
  by (cases l) (auto simp: run_listener_def AList.delete_eq)

lemma keys_fold_run_listener:
  "fst ` set (windows (fold (run_listener h) ls s)) \<subseteq> fst ` set (windows s)"
proof (induction ls arbitrary: s)
  case Nil
  show ?case by simp
next
  case (Cons l ls)
  have "fst ` set (windows (fold (run_listener h) ls (run_listener h l s)))
          \<subseteq> fst ` set (windows (run_listener h l s))"
    by (rule Cons.IH)
  also have "\<dots> \<subseteq> fst ` set (windows s)"
    by (rule keys_run_listener)
  finally show ?case by simp
qed

lemma fold_run_listener_deletes:
  "DeleteEntry t \<in> set ls \<Longrightarrow> t \<notin> fst ` set (windows (fold (run_listener h) ls s))"
proof (induction ls arbitrary: s)
  case Nil
  then show ?case by simp
next
  case (Cons l ls)
  show ?case
  proof (cases "l = DeleteEntry t")
    case True
    have "t \<notin> fst ` set (windows (run_listener h l s))"
      using True by (simp add: run_listener_def delete_notin_dom)
    then show ?thesis
      using keys_fold_run_listener[of h ls "run_listener h l s"] by auto
  next
    case False
    then have "DeleteEntry t \<in> set ls" using Cons.prems by simp
    then show ?thesis using Cons.IH by simp
  qed
qed

lemma isDestroyed_run_listener [simp]:
  "isDestroyed (run_listener h l s) h' = isDestroyed s h'"
  by (cases l) (simp_all add: run_listener_def)

lemma isDestroyed_fold_run_listener [simp]:
  "isDestroyed (fold (run_listener h) ls s) h' = isDestroyed s h'"
  by (induction ls arbitrary: s) simp_all

lemma isDestroyed_window_closed:
  "h < length (heap s) \<Longrightarrow> isDestroyed (window_closed h s) h"
  by (simp add: window_closed_def emit_def) (simp add: isDestroyed_def window_update_window)

section \<open>Evaluation from the empty registry\<close>

lemma create_from_init:
  assumes "getWindowConfig e t = Some c"
  shows "createOrGetWindow e init t =
    (Some 0, init\<lparr>heap := [created_window e t c], windows := [(t, 0)]\<rparr>)"
  using createOrGetWindow_create[OF getWindow_init assms] by (simp add: init_def)

lemma main_from_init:
  "createOrGetWindow production_env init ''main'' =
    (Some 0,
     init\<lparr>heap := [created_window production_env ''main''
                     (the (getWindowConfig production_env ''main''))],
          windows := [(''main'', 0)]\<rparr>)"
  by (rule create_from_init) (simp add: getWindowConfig_def)

lemma floatBall_from_init:
  "createOrGetWindow production_env init ''floatBall'' =
    (Some 0,
     init\<lparr>heap := [created_window production_env ''floatBall''
                     (the (getWindowConfig production_env ''floatBall''))],
          windows := [(''floatBall'', 0)]\<rparr>)"
  by (rule create_from_init) (simp add: getWindowConfig_def split: prod.splits)

section \<open>The registry\<close>

text \<open>
  Claim C1. When \<open>createOrGetWindow\<close> has returned a handle for a window type and that window is
  not destroyed, a second call for the same type, with nothing in between, returns the same
  handle and leaves the whole state as it is: the heap has no new window, and the window has
  no further listener and no further call (no new wiring, no reload).
\<close>

theorem C1_createOrGetWindow_idempotent:
  assumes "createOrGetWindow e s t = (Some h, s1)" and "\<not> isDestroyed s1 h"
  shows "createOrGetWindow e' s1 t = (Some h, s1)"
  using createOrGetWindow_stored[OF assms(1)] assms(2)
  by (simp add: createOrGetWindow_def)

theorem C1_witness:
  "fst (createOrGetWindow production_env init ''main'') = Some 0 \<and>
   createOrGetWindow production_env (snd (createOrGetWindow production_env init ''main'')) ''main''
     = (Some 0, snd (createOrGetWindow production_env init ''main''))"
proof -
  let ?s1 = "snd (createOrGetWindow production_env init ''main'')"
  have a: "createOrGetWindow production_env init ''main'' = (Some 0, ?s1)"
    by (simp add: main_from_init)
  have b: "\<not> isDestroyed ?s1 0"
    by (simp add: main_from_init isDestroyed_def window_def)
  have f: "fst (createOrGetWindow production_env init ''main'') = Some 0"
    by (simp add: main_from_init)
  show ?thesis
    by (rule conjI[OF f C1_createOrGetWindow_idempotent[OF a b]])
qed

text \<open>
  Claim C3. When the window stored for a window type is destroyed by the runtime (its
  \<open>'closed'\<close> event fires) without a call of \<open>closeWindow\<close>, the listener registered at
  creation has removed the entry of that type, and \<open>getWindow\<close> for the type returns nothing,
  with no further call of the window manager. \<open>getWindow\<close> never returns a destroyed window.
\<close>

theorem C3_destroyed_window_forgotten:
  assumes "wf_state s" and "map_of (windows s) t = Some h"
  shows "getWindow (window_closed h s) t = None \<and>
         map_of (windows (window_closed h s)) t = None \<and>
         isDestroyed (window_closed h s) h \<and>
         (\<forall>t' h'. getWindow (window_closed h s) t' = Some h' \<longrightarrow>
                    \<not> isDestroyed (window_closed h s) h')"
proof -
  let ?s0 = "update_window h (\<lambda>w. w\<lparr>destroyed := True\<rparr>) s"
  let ?ls = "map snd (filter (\<lambda>p. fst p = ''closed'') (listeners (window ?s0 h)))"
  have h: "h < length (heap s)"
    and l: "(''closed'', DeleteEntry t) \<in> set (listeners (window s h))"
    using map_of_wf[OF assms] by auto
  have "listeners (window ?s0 h) = listeners (window s h)"
    by (simp add: window_update_window)
  then have "DeleteEntry t \<in> set ?ls"
    using l by force
  then have "t \<notin> fst ` set (windows (fold (run_listener h) ?ls ?s0))"
    by (rule fold_run_listener_deletes)
  then have gone: "map_of (windows (window_closed h s)) t = None"
    by (simp add: window_closed_def emit_def map_of_None_keys)
  show ?thesis
    using gone isDestroyed_window_closed[OF h]
    by (simp add: getWindow_eq_Some getWindow_eq_None)
qed

theorem C3_witness:
  "getWindow (snd (createOrGetWindow production_env init ''floatBall'')) ''floatBall'' = Some 0 \<and>
   getWindow (window_closed 0 (snd (createOrGetWindow production_env init ''floatBall'')))
     ''floatBall'' = None \<and>
   map_of (windows (window_closed 0 (snd (createOrGetWindow production_env init ''floatBall''))))
     ''floatBall'' = None"
proof -
  let ?s = "snd (createOrGetWindow production_env init ''floatBall'')"
  have wf: "wf_state ?s"
    by (rule wf_state_createOrGetWindow[OF wf_state_init])
  have m: "map_of (windows ?s) ''floatBall'' = Some 0"
    by (simp add: floatBall_from_init)
  have g: "getWindow ?s ''floatBall'' = Some 0"
    by (simp add: floatBall_from_init getWindow_eq_Some isDestroyed_def window_def)
  show ?thesis
    using C3_destroyed_window_forgotten[OF wf m] g by simp
qed

text \<open>
  Claim C4. For a window type with a live stored window, \<open>closeWindow\<close> calls \<open>close\<close> on the
  window and removes the entry at once, while the window is not yet destroyed. After it
  \<open>getWindow\<close> returns nothing for the type, and the next \<open>createOrGetWindow\<close> for the type
  makes a new window, with a handle other than the closed one. When the destruction
  listener of the closed window runs afterwards and finds no entry, it changes nothing, and
  the type is still without an entry after the \<open>'closed'\<close> event.
\<close>

theorem C4_closeWindow:
  assumes "wf_state s" and "getWindow s t = Some h"
  shows "calls (window (closeWindow s t) h) = calls (window s h) @ [M_close] \<and>
         \<not> isDestroyed (closeWindow s t) h \<and>
         map_of (windows (closeWindow s t)) t = None \<and>
         getWindow (closeWindow s t) t = None \<and>
         (\<exists>h' s'. createOrGetWindow e (closeWindow s t) t = (Some h', s') \<and> h' \<noteq> h \<and>
                   h' = length (heap s) \<and> getWindow s' t = Some h') \<and>
         run_listener h (DeleteEntry t) (closeWindow s t) = closeWindow s t \<and>
         map_of (windows (window_closed h (closeWindow s t))) t = None"
proof -
  let ?s1 = "closeWindow s t"
  have stored: "map_of (windows s) t = Some h" and live: "\<not> isDestroyed s h"
    using assms(2) by (simp_all add: getWindow_eq_Some)
  have known: "t \<in> known_types" and h: "h < length (heap s)"
    using map_of_wf[OF assms(1) stored] by auto
  have s1: "?s1 = (call h M_close s)\<lparr>windows := AList.delete t (windows s)\<rparr>"
    using stored live by (simp add: closeWindow_def)
  have c1: "calls (window ?s1 h) = calls (window s h) @ [M_close]"
    using h by (simp add: s1 call_def window_def update_window_def)
  have c2: "\<not> isDestroyed ?s1 h"
    using live by (simp add: s1)
  have keys: "t \<notin> fst ` set (windows ?s1)"
    by (simp add: s1 delete_notin_dom)
  then have c3: "map_of (windows ?s1) t = None"
    by (simp add: map_of_None_keys)
  then have c4: "getWindow ?s1 t = None"
    by (simp add: getWindow_eq_None)
  obtain c where c: "getWindowConfig e t = Some c"
    using known getWindowConfig_None[of e t] by auto
  have len: "length (heap ?s1) = length (heap s)"
    by (simp add: s1 call_def)
  have c5: "\<exists>h' s'. createOrGetWindow e ?s1 t = (Some h', s') \<and> h' \<noteq> h \<and>
                   h' = length (heap s) \<and> getWindow s' t = Some h'"
  proof -
    let ?s2 = "?s1\<lparr>heap := heap ?s1 @ [created_window e t c],
                     windows := AList.update t (length (heap ?s1)) (windows ?s1)\<rparr>"
    have "getWindow ?s2 t = Some (length (heap ?s1))"
      by (simp add: getWindow_eq_Some update_conv' isDestroyed_def window_def)
    then show ?thesis
      using createOrGetWindow_create[OF c4 c] h len by auto
  qed
  have c6: "run_listener h (DeleteEntry t) ?s1 = ?s1"
    using keys by (simp add: run_listener_def)
  have "t \<notin> fst ` set (windows (window_closed h ?s1))"
    using keys keys_fold_run_listener[of h _ "update_window h (\<lambda>w. w\<lparr>destroyed := True\<rparr>) ?s1"]
    unfolding window_closed_def emit_def by auto
  then have c7: "map_of (windows (window_closed h ?s1)) t = None"
    by (simp add: map_of_None_keys)
  show ?thesis using c1 c2 c3 c4 c5 c6 c7 by blast
qed

theorem C4_witness:
  "getWindow (snd (createOrGetWindow production_env init ''main'')) ''main'' = Some 0 \<and>
   getWindow (closeWindow (snd (createOrGetWindow production_env init ''main'')) ''main'')
     ''main'' = None \<and>
   fst (createOrGetWindow production_env
         (closeWindow (snd (createOrGetWindow production_env init ''main'')) ''main'') ''main'')
     = Some 1"
proof -
  let ?s = "snd (createOrGetWindow production_env init ''main'')"
  have wf: "wf_state ?s"
    by (rule wf_state_createOrGetWindow[OF wf_state_init])
  have g: "getWindow ?s ''main'' = Some 0"
    by (simp add: main_from_init getWindow_eq_Some isDestroyed_def window_def)
  have len: "length (heap ?s) = 1"
    by (simp add: main_from_init)
  show ?thesis
    using C4_closeWindow[OF wf g, of production_env] g len by auto
qed

text \<open>
  Claim C8. For a window type outside \<open>main\<close>, \<open>floatBall\<close> and \<open>popup\<close>,
  \<open>createOrGetWindow\<close> returns nothing, writes the error \<open>Unknown window type\<close> to the
  console, and leaves the registry and the heap as they are. It is the only way for
  \<open>createOrGetWindow\<close> to return nothing: for a known type it always returns a handle.
\<close>

theorem C8_unknown_type:
  assumes "wf_state s"
  shows "(t \<notin> known_types \<longrightarrow>
           createOrGetWindow e s t =
             (None, s\<lparr>console := console s @ [Error (''Unknown window type: '' @ t)]\<rparr>) \<and>
           windows (snd (createOrGetWindow e s t)) = windows s \<and>
           heap (snd (createOrGetWindow e s t)) = heap s) \<and>
         (fst (createOrGetWindow e s t) = None \<longrightarrow> t \<notin> known_types)"
proof -
  have a: "createOrGetWindow e s t =
             (None, s\<lparr>console := console s @ [Error (''Unknown window type: '' @ t)]\<rparr>)"
    if "t \<notin> known_types"
  proof -
    have "map_of (windows s) t = None"
      using that map_of_wf(1)[OF assms, of t] by (cases "map_of (windows s) t") auto
    then have "getWindow s t = None" by (simp add: getWindow_eq_None)
    moreover have "getWindowConfig e t = None" using that by (simp add: getWindowConfig_None)
    ultimately show ?thesis by (rule createOrGetWindow_unknown)
  qed
  have b: "t \<notin> known_types" if n: "fst (createOrGetWindow e s t) = None"
  proof (rule ccontr)
    assume "\<not> t \<notin> known_types"
    then obtain c where c: "getWindowConfig e t = Some c"
      using getWindowConfig_None[of e t] by auto
    show False
    proof (cases "getWindow s t")
      case None
      then show False using n createOrGetWindow_create[OF None c] by simp
    next
      case (Some h)
      then show False using n createOrGetWindow_existing[OF Some, of e] by simp
    qed
  qed
  show ?thesis using a b by auto
qed

theorem C8_witness:
  "''nonexistent'' \<notin> known_types \<and>
   createOrGetWindow production_env init ''nonexistent'' =
     (None, init\<lparr>console := [Error ''Unknown window type: nonexistent'']\<rparr>) \<and>
   fst (createOrGetWindow production_env init ''main'') \<noteq> None"
proof -
  have k: "''nonexistent'' \<notin> known_types"
    by (simp add: known_types_def)
  have m: "fst (createOrGetWindow production_env init ''main'') \<noteq> None"
    by (simp add: main_from_init)
  show ?thesis
    using C8_unknown_type[OF wf_state_init, of "''nonexistent''" production_env] k m
    by (simp add: init_def)
qed

section \<open>Content loading\<close>

lemma loadContent_production:
  assumes "\<not> is_dev e" and "getWindowConfig e t = Some c"
  shows "loadContent e c h s =
    call h (M_loadFile
             (join (dirname e)
                (if t = ''main'' then ''../renderer/index.html'' else ''../renderer/float.html''))
             (if t = ''popup'' then Some ''popup'' else None)) s"
  using assms
  by (auto simp: loadContent_def getWindowConfig_def truthy_def join_def
      split: if_splits prod.splits)

lemma loadContent_dev_server:
  assumes "is_dev e" and "ELECTRON_RENDERER_URL e = Some u" and "u \<noteq> []"
    and "getWindowConfig e t = Some c"
  shows "loadContent e c h s =
    call h (M_loadURL
             (u @ (if t = ''main'' then ''/index.html''
                   else if t = ''floatBall'' then ''/float.html'' else ''/float.html#popup''))) s"
  using assms
  by (auto simp: loadContent_def getWindowConfig_def truthy_def
      split: if_splits prod.splits)

lemma loadContent_dev_without_server:
  assumes "is_dev e" and "\<not> truthy (ELECTRON_RENDERER_URL e)"
    and "getWindowConfig e t = Some c"
  shows "loadContent e c h s = call h (M_loadURL []) s" and "cfg_file c \<noteq> None"
  using assms
  by (auto simp: loadContent_def getWindowConfig_def
      split: if_splits prod.splits)

text \<open>
  Claim C2 says that a new window loads the development server's address only in development
  with a configured address, and the local file in every other case, development without a
  configured address included. The three lemmas above give what \<open>createOrGetWindow\<close> loads;
  in development without a configured address it is \<open>loadURL('')\<close>, although
  \<open>getWindowConfig\<close> has computed the local file for exactly that case. The evaluation for
  the main window on the empty registry:
\<close>

theorem C2_dev_without_server:
  "calls (window (snd (createOrGetWindow
      \<lparr>is_dev = True, ELECTRON_RENDERER_URL = None, platform = p, dirname = d, icon = i,
       workAreaSize = wa, defaultPosition = dp\<rparr> init ''main'')) 0)
    = [M_setWindowOpenHandler, M_loadURL []] \<and>
   cfg_file (the (getWindowConfig
      \<lparr>is_dev = True, ELECTRON_RENDERER_URL = None, platform = p, dirname = d, icon = i,
       workAreaSize = wa, defaultPosition = dp\<rparr> ''main'')) = Some (join d ''../renderer/index.html'')"
  by (simp add: createOrGetWindow_def truthy_def
      isDestroyed_def window_def call_def update_window_def
      getWindowConfig_def new_BrowserWindow_def setupWindowEvents_def loadContent_def on_def
      init_def Let_def)

theorem C2_witness:
  "calls (window (snd (createOrGetWindow (production_env\<lparr>is_dev := True\<rparr>) init ''main'')) 0)
     = [M_setWindowOpenHandler, M_loadURL []] \<and>
   cfg_file (the (getWindowConfig (production_env\<lparr>is_dev := True\<rparr>) ''main''))
     = Some ''/app/out/main/../renderer/index.html''"
  using C2_dev_without_server[of "''linux''" "''/app/out/main''" "''icon.png''" "(1920, 1040)"
      "(510, 185)"]
  by (simp add: production_env_def join_def)

section \<open>Position set\<close>

lemma Math_round_nearest: "\<bar>real_of_int (Math_round v) - v\<bar> \<le> 1 / 2"
  unfolding Math_round_def by linarith

lemma Math_round_example: "Math_round (107 / 10) = 11" "Math_round (101 / 5) = 20"
  unfolding Math_round_def by simp_all

text \<open>
  Claim C7. With a live \<open>floatBall\<close> window, the position-set handler calls \<open>setPosition\<close>
  with each coordinate of the payload rounded to a nearest integer (at most one half away),
  and that is the window's position afterwards; the payload \<open>{x: 10.7, y: 20.2}\<close> sets the
  position \<open>(11, 20)\<close>.
\<close>

theorem C7_setPosition_rounds:
  assumes "wf_state s" and "getWindow s ''floatBall'' = Some h"
  shows "getPosition (handleSetPosition s args) h
           = (Math_round (args_x args), Math_round (args_y args)) \<and>
         calls (window (handleSetPosition s args) h)
           = calls (window s h)
             @ [M_setPosition (Math_round (args_x args)) (Math_round (args_y args))] \<and>
         \<bar>real_of_int (Math_round (args_x args)) - args_x args\<bar> \<le> 1 / 2 \<and>
         \<bar>real_of_int (Math_round (args_y args)) - args_y args\<bar> \<le> 1 / 2 \<and>
         getPosition (handleSetPosition s \<lparr>args_x = 107 / 10, args_y = 101 / 5\<rparr>) h = (11, 20)"
proof -
  have h: "h < length (heap s)"
    using map_of_wf(2)[OF assms(1), of "''floatBall''" h] assms(2)
    by (simp add: getWindow_eq_Some)
  have pos: "getPosition (handleSetPosition s a) h = (Math_round (args_x a), Math_round (args_y a))"
    for a
    using h assms(2)
    by (simp add: handleSetPosition_def setPosition_def getPosition_def call_def
        window_update_window)
  have cl: "calls (window (handleSetPosition s args) h)
           = calls (window s h)
             @ [M_setPosition (Math_round (args_x args)) (Math_round (args_y args))]"
    using h assms(2)
    by (simp add: handleSetPosition_def setPosition_def call_def window_update_window)
  show ?thesis
    using cl Math_round_nearest Math_round_example by (simp add: pos)
qed

lemma floatBall_created_position:
  "position (created_window production_env ''floatBall''
      (the (getWindowConfig production_env ''floatBall''))) = (1700, 860)"
  by (simp add: created_window_def getWindowConfig_def production_env_def new_BrowserWindow_def
      setupWindowEvents_def loadContent_def call_def on_def update_window_def window_def
      init_def Let_def)

lemma main_created_calls:
  "calls (created_window production_env ''main''
      (the (getWindowConfig production_env ''main''))) =
    [M_setWindowOpenHandler, M_loadFile ''/app/out/main/../renderer/index.html'' None]"
  by (simp add: created_window_def getWindowConfig_def production_env_def new_BrowserWindow_def
      setupWindowEvents_def loadContent_def call_def on_def update_window_def window_def
      init_def Let_def truthy_def join_def)

theorem C7_witness:
  "getWindow (snd (createOrGetWindow production_env init ''floatBall'')) ''floatBall'' = Some 0 \<and>
   getPosition (snd (createOrGetWindow production_env init ''floatBall'')) 0 = (1700, 860) \<and>
   getPosition
     (handleSetPosition (snd (createOrGetWindow production_env init ''floatBall''))
        \<lparr>args_x = 107 / 10, args_y = 101 / 5\<rparr>) 0 = (11, 20)"
proof -
  let ?s = "snd (createOrGetWindow production_env init ''floatBall'')"
  have wf: "wf_state ?s"
    by (rule wf_state_createOrGetWindow[OF wf_state_init])
  have g: "getWindow ?s ''floatBall'' = Some 0"
    by (simp add: floatBall_from_init getWindow_eq_Some isDestroyed_def window_def)
  have p: "getPosition ?s 0 = (1700, 860)"
    by (simp add: floatBall_from_init getPosition_def window_def floatBall_created_position)
  have r: "getPosition (handleSetPosition ?s \<lparr>args_x = 107 / 10, args_y = 101 / 5\<rparr>) 0
             = (11, 20)"
    using C7_setPosition_rounds[OF wf g, of "\<lparr>args_x = 107 / 10, args_y = 101 / 5\<rparr>"]
    by blast
  show ?thesis
    by (intro conjI g p r)
qed


section \<open>Restore main\<close>

lemma ensure_main_live:
  assumes "wf_state s"
  shows "\<exists>h. ensure_main e s = (Some h, snd (ensure_main e s)) \<and>
             getWindow (snd (ensure_main e s)) ''main'' = Some h \<and>
             h < length (heap (snd (ensure_main e s))) \<and>
             (getWindow s ''main'' = None \<longrightarrow>
                h = length (heap s) \<and> \<not> isMinimized (snd (ensure_main e s)) h)"
proof (cases "getWindow s ''main''")
  case None
  obtain c where c: "getWindowConfig e ''main'' = Some c"
    by (simp add: getWindowConfig_def)
  show ?thesis
    unfolding ensure_main_def None
    by (simp add: createOrGetWindow_create[OF None c] getWindow_eq_Some update_conv'
        isDestroyed_def isMinimized_def window_def)
next
  case (Some h)
  then have "h < length (heap s)"
    using map_of_wf(2)[OF assms, of "''main''" h] by (simp add: getWindow_eq_Some)
  then show ?thesis using Some by (simp add: ensure_main_def)
qed

text \<open>
  Claim C9, amended. The restore-main handler takes the live main window, or creates one with
  \<open>createOrGetWindow\<close> when there is none; on that window it calls \<open>restore\<close> exactly when the
  window is minimized, then \<open>show\<close> and \<open>focus\<close>, and last sends the route on \<open>app:route\<close>
  exactly when the payload carries a route that is not the empty string. The main window is
  live and not minimized afterwards.
\<close>

theorem C9_restore_main:
  assumes "wf_state s"
  shows "\<exists>h. getWindow (snd (ensure_main e s)) ''main'' = Some h \<and>
          (getWindow s ''main'' = None \<longrightarrow>
             ensure_main e s = createOrGetWindow e s ''main'' \<and> h = length (heap s)) \<and>
          (getWindow s ''main'' \<noteq> None \<longrightarrow> ensure_main e s = (getWindow s ''main'', s)) \<and>
          getWindow (handleRestoreMain e s options) ''main'' = Some h \<and>
          \<not> isMinimized (handleRestoreMain e s options) h \<and>
          calls (window (handleRestoreMain e s options) h) =
            calls (window (snd (ensure_main e s)) h)
            @ (if isMinimized (snd (ensure_main e s)) h then [M_restore] else [])
            @ [M_show, M_focus]
            @ (case optional_route options of
                 None \<Rightarrow> []
               | Some r \<Rightarrow> if r = [] then [] else [M_send ''app:route'' r])"
proof -
  obtain h where em0: "ensure_main e s = (Some h, snd (ensure_main e s))"
    and live0: "getWindow (snd (ensure_main e s)) ''main'' = Some h"
    and h0: "h < length (heap (snd (ensure_main e s)))"
    and new0: "getWindow s ''main'' = None \<longrightarrow>
                 h = length (heap s) \<and> \<not> isMinimized (snd (ensure_main e s)) h"
    using ensure_main_live[OF assms, of e] by (elim exE conjE)
  define s1 where "s1 = snd (ensure_main e s)"
  have em: "ensure_main e s = (Some h, s1)"
    and live: "getWindow s1 ''main'' = Some h"
    and h: "h < length (heap s1)"
    and new: "getWindow s ''main'' = None \<longrightarrow> h = length (heap s) \<and> \<not> isMinimized s1 h"
    using em0 live0 h0 new0 unfolding s1_def by blast+
  define s2 where "s2 = (if isMinimized s1 h then restore h s1 else s1)"
  define s4 where "s4 = call h M_focus (call h M_show s2)"
  have hrm: "handleRestoreMain e s options =
     (if truthy (optional_route options)
      then call h (M_send ''app:route'' (the (optional_route options))) s4 else s4)"
    unfolding handleRestoreMain_def ensure_main_def[symmetric] em s2_def s4_def
    by (simp add: Let_def)
  have s2: "calls (window s2 h) =
              calls (window s1 h) @ (if isMinimized s1 h then [M_restore] else [])"
      "\<not> isMinimized s2 h" "getWindow s2 ''main'' = Some h"
      "length (heap s2) = length (heap s1)"
    using restore_props[OF h] live by (auto simp: s2_def)
  have s4: "calls (window s4 h) =
              calls (window s1 h) @ (if isMinimized s1 h then [M_restore] else [])
              @ [M_show, M_focus]"
      "\<not> isMinimized s4 h" "getWindow s4 ''main'' = Some h" "h < length (heap s4)"
    using s2 h by (simp_all add: s4_def calls_call)
  have fin: "getWindow (handleRestoreMain e s options) ''main'' = Some h \<and>
          \<not> isMinimized (handleRestoreMain e s options) h \<and>
          calls (window (handleRestoreMain e s options) h) =
            calls (window s1 h)
            @ (if isMinimized s1 h then [M_restore] else [])
            @ [M_show, M_focus]
            @ (case optional_route options of
                 None \<Rightarrow> []
               | Some r \<Rightarrow> if r = [] then [] else [M_send ''app:route'' r])"
    unfolding hrm using s4
    by (cases "optional_route options") (simp_all add: truthy_def calls_call)
  have pre: "(getWindow s ''main'' = None \<longrightarrow>
             ensure_main e s = createOrGetWindow e s ''main'' \<and> h = length (heap s)) \<and>
          (getWindow s ''main'' \<noteq> None \<longrightarrow> ensure_main e s = (getWindow s ''main'', s))"
    using new by (auto simp: ensure_main_def)
  show ?thesis using live pre fin unfolding s1_def by (intro exI[of _ h]) simp
qed

lemma restore_main_from_init:
  "handleRestoreMain production_env init options =
    (let s4 = call 0 M_focus (call 0 M_show (snd (createOrGetWindow production_env init ''main'')))
     in if truthy (optional_route options)
        then call 0 (M_send ''app:route'' (the (optional_route options))) s4 else s4)"
  by (simp add: handleRestoreMain_def main_from_init isMinimized_def window_def Let_def)

theorem C9_witness:
  "getWindow (handleRestoreMain production_env init (Some \<lparr>route = Some ''SETTINGS''\<rparr>)) ''main''
     = Some 0 \<and>
   calls (window (handleRestoreMain production_env init (Some \<lparr>route = Some ''SETTINGS''\<rparr>)) 0)
     = [M_setWindowOpenHandler, M_loadFile ''/app/out/main/../renderer/index.html'' None,
        M_show, M_focus, M_send ''app:route'' ''SETTINGS'']"
proof -
  have e: "ensure_main production_env init = createOrGetWindow production_env init ''main''"
    by (simp add: ensure_main_def)
  have c: "calls (window (snd (ensure_main production_env init)) 0) =
      [M_setWindowOpenHandler, M_loadFile ''/app/out/main/../renderer/index.html'' None]"
    by (simp add: e main_from_init window_def main_created_calls)
  have m: "\<not> isMinimized (snd (ensure_main production_env init)) 0"
    by (simp add: e main_from_init isMinimized_def window_def)
  have l: "length (heap init) = 0"
    by (simp add: init_def)
  show ?thesis
    using C9_restore_main[OF wf_state_init, of production_env "Some \<lparr>route = Some ''SETTINGS''\<rparr>"]
      c m l
    by (auto simp: optional_route_def)
qed

text \<open>
  Claim C9 as stated, with the route message sent whenever a route is supplied, fails for
  the payload \<open>{route: ''}\<close>: the guard \<open>if (options?.route)\<close> is false for the empty string,
  and nothing is sent.
\<close>

theorem C9_counterexample:
  "optional_route (Some \<lparr>route = Some []\<rparr>) = Some [] \<and>
   calls (window (handleRestoreMain production_env init (Some \<lparr>route = Some []\<rparr>)) 0) =
     [M_setWindowOpenHandler, M_loadFile ''/app/out/main/../renderer/index.html'' None,
      M_show, M_focus]"
  by (simp add: restore_main_from_init optional_route_def truthy_def main_from_init
      call_def update_window_def window_def main_created_calls)

section \<open>The pointer cycle of the widget\<close>

lemma run_append: "run fb (xs @ ys) = run (run fb xs) ys"
  by (simp add: run_def)

lemma run_Cons: "run fb (x # xs) = run (step fb x) xs"
  by (simp add: run_def)

lemma run_Nil [simp]: "run fb [] = fb"
  by (simp add: run_def)

lemma moves_dropped:
  "document_listeners fb = [] \<Longrightarrow> run fb (map Move ms) = fb"
  by (induction ms) (simp_all add: run_Cons document_mousemove_def)

lemma moves_within:
  assumes "document_listeners fb = [c]" and "\<not> isDraggingRef fb"
    and "\<forall>m \<in> set ms. \<bar>screenX m - initialMouseXRef fb\<bar> \<le> 5 \<and>
                        \<bar>screenY m - initialMouseYRef fb\<bar> \<le> 5"
  shows "run fb (map Move ms) = fb"
  using assms(3)
proof (induction ms)
  case Nil
  show ?case by simp
next
  case (Cons m ms)
  have "handleMouseMove fb m = fb"
    using Cons.prems assms(2)
    by (auto simp: handleMouseMove_def Let_def)
  then have "document_mousemove fb m = fb"
    using assms(1) by (simp add: document_mousemove_def)
  then show ?case using Cons by (simp add: run_Cons)
qed

lemma moves_dragging:
  assumes "document_listeners fb = [c]" and "isDraggingRef fb"
  shows "run fb (map Move ms) =
    fb\<lparr>ipc_sent := ipc_sent fb @
      map (\<lambda>m. Ipc_setPosition (windowInitialXRef fb + (screenX m - initialMouseXRef fb))
                               (windowInitialYRef fb + (screenY m - initialMouseYRef fb))) ms\<rparr>"
  using assms
proof (induction ms arbitrary: fb)
  case Nil
  show ?case by simp
next
  case (Cons m ms)
  let ?msg = "Ipc_setPosition (windowInitialXRef fb + (screenX m - initialMouseXRef fb))
                              (windowInitialYRef fb + (screenY m - initialMouseYRef fb))"
  let ?fb1 = "fb\<lparr>ipc_sent := ipc_sent fb @ [?msg]\<rparr>"
  have st: "document_mousemove fb m = ?fb1"
    using Cons.prems
    by (simp add: document_mousemove_def handleMouseMove_def Let_def)
  have "run ?fb1 (map Move ms) =
     ?fb1\<lparr>ipc_sent := ipc_sent ?fb1 @
       map (\<lambda>m. Ipc_setPosition (windowInitialXRef ?fb1 + (screenX m - initialMouseXRef ?fb1))
                               (windowInitialYRef ?fb1 + (screenY m - initialMouseYRef ?fb1))) ms\<rparr>"
    by (rule Cons.IH) (simp_all add: Cons.prems)
  then show ?case by (simp add: run_Cons st)
qed

lemma move_starts_drag:
  assumes "document_listeners fb = [c]" and "\<not> isDraggingRef fb"
    and "\<bar>screenX m - initialMouseXRef fb\<bar> > 5 \<or> \<bar>screenY m - initialMouseYRef fb\<bar> > 5"
  shows "document_mousemove fb m =
    fb\<lparr>isDraggingRef := True,
       ipc_sent := ipc_sent fb @
         [Ipc_setPosition (windowInitialXRef fb + (screenX m - initialMouseXRef fb))
                          (windowInitialYRef fb + (screenY m - initialMouseYRef fb))]\<rparr>"
  using assms
  by (auto simp: document_mousemove_def handleMouseMove_def Let_def)

lemma armed_state:
  assumes "idle fb"
  shows "run fb (Down e tdown # map Move early @ [Reply p]) = armed fb e tdown p"
proof -
  let ?fb1 = "handleMouseDown fb e tdown"
  have l: "document_listeners ?fb1 = []"
    using assms by (simp add: handleMouseDown_def idle_def)
  have "run fb (Down e tdown # map Move early @ [Reply p]) = position_received ?fb1 p"
    by (simp add: run_Cons run_append moves_dropped[OF l])
  also have "\<dots> = armed fb e tdown p"
    using assms by (simp add: handleMouseDown_def position_received_def idle_def armed_def)
  finally show ?thesis .
qed

lemma armed_then:
  assumes "idle fb"
  shows "run fb (Down e tdown # map Move early @ Reply p # evs) = run (armed fb e tdown p) evs"
  using run_append[of fb "Down e tdown # map Move early @ [Reply p]" evs] armed_state[OF assms]
  by simp

lemma tracked_within:
  assumes "\<forall>m \<in> set ms. \<bar>screenX m - screenX e\<bar> \<le> 5 \<and> \<bar>screenY m - screenY e\<bar> \<le> 5"
  shows "run (armed fb e tdown p) (map Move ms) = armed fb e tdown p"
  by (rule moves_within[of _ False]) (simp_all add: armed_def assms)

lemma tracked_click:
  assumes "\<forall>m \<in> set ms. \<bar>screenX m - screenX e\<bar> \<le> 5 \<and> \<bar>screenY m - screenY e\<bar> \<le> 5"
    and "tup - tdown < 200"
  shows "run (armed fb e tdown p) (map Move ms @ [Up tup]) =
     (armed fb e tdown p)\<lparr>isExpanded := True, document_listeners := []\<rparr>"
proof -
  have "run (armed fb e tdown p) (map Move ms @ [Up tup]) = document_mouseup (armed fb e tdown p) tup"
    by (simp only: run_append tracked_within[OF assms(1)]) (simp add: run_Cons)
  also have "\<dots> = (armed fb e tdown p)\<lparr>isExpanded := True, document_listeners := []\<rparr>"
    using assms(2) by (simp add: armed_def document_mouseup_def handleMouseUp_def)
  finally show ?thesis .
qed

lemma tracked_drag:
  assumes "\<forall>m \<in> set pre. \<bar>screenX m - screenX e\<bar> \<le> 5 \<and> \<bar>screenY m - screenY e\<bar> \<le> 5"
    and "\<bar>screenX m - screenX e\<bar> > 5 \<or> \<bar>screenY m - screenY e\<bar> > 5"
  shows "run (armed fb e tdown p) (map Move (pre @ m # post)) =
     (armed fb e tdown p)\<lparr>isDraggingRef := True,
        ipc_sent := ipc_sent fb @ [Ipc_getPosition] @
          map (\<lambda>q. Ipc_setPosition (fst p + (screenX q - screenX e))
                                   (snd p + (screenY q - screenY e))) (m # post)\<rparr>"
proof -
  let ?a = "armed fb e tdown p"
  let ?d = "?a\<lparr>isDraggingRef := True,
       ipc_sent := ipc_sent ?a @
         [Ipc_setPosition (windowInitialXRef ?a + (screenX m - initialMouseXRef ?a))
                          (windowInitialYRef ?a + (screenY m - initialMouseYRef ?a))]\<rparr>"
  have st: "document_mousemove ?a m = ?d"
    by (rule move_starts_drag[of _ False]) (simp_all add: armed_def assms(2))
  have "run ?a (map Move (pre @ m # post)) = run (document_mousemove ?a m) (map Move post)"
    by (simp add: run_append tracked_within[OF assms(1)] run_Cons)
  also have "\<dots> = run ?d (map Move post)"
    by (simp only: st)
  also have "\<dots> = ?d\<lparr>ipc_sent := ipc_sent ?d @
      map (\<lambda>m. Ipc_setPosition (windowInitialXRef ?d + (screenX m - initialMouseXRef ?d))
                               (windowInitialYRef ?d + (screenY m - initialMouseYRef ?d))) post\<rparr>"
    by (rule moves_dragging[of _ False]) (simp_all add: armed_def)
  finally show ?thesis by (simp add: armed_def)
qed

lemma idle_init: "idle FloatBall_init"
  by (simp add: idle_def FloatBall_init_def)

text \<open>
  When the position reply arrives before the button is released, the click is recognised:
  from the idle widget, with every pointer-move within 5 pixels on both axes and the release
  less than 200 ms after the press, the release toggles \<open>isExpanded\<close> (to expanded), and the
  position query is the only message sent at any point of the cycle.
\<close>

lemma click_after_reply:
  assumes "idle fb"
    and "\<forall>m \<in> set (early @ ms). max \<bar>screenX m - screenX e\<bar> \<bar>screenY m - screenY e\<bar> \<le> 5"
    and "tup - tdown < 200"
  shows "isExpanded (run fb (Down e tdown # map Move early @ [Reply p] @ map Move ms @ [Up tup]))
           = (\<not> isExpanded fb) \<and>
         ipc_sent (run fb (Down e tdown # map Move early @ [Reply p] @ map Move ms @ [Up tup]))
           = ipc_sent fb @ [Ipc_getPosition] \<and>
         (\<forall>k. ipc_sent (run fb (Down e tdown # map Move early @ [Reply p] @ map Move (take k ms)))
           = ipc_sent fb @ [Ipc_getPosition])"
proof -
  have w: "\<forall>m \<in> set ms. \<bar>screenX m - screenX e\<bar> \<le> 5 \<and> \<bar>screenY m - screenY e\<bar> \<le> 5"
    using assms(2) by simp
  have wk: "\<forall>m \<in> set (take k ms). \<bar>screenX m - screenX e\<bar> \<le> 5 \<and> \<bar>screenY m - screenY e\<bar> \<le> 5"
    for k
    using w by (meson in_set_takeD)
  have "\<not> isExpanded fb"
    using assms(1) by (simp add: idle_def)
  then show ?thesis
    by (simp add: armed_then[OF assms(1)] tracked_click[OF w assms(3)] tracked_within[OF wk])
       (simp add: armed_def)
qed

lemma click_after_reply_example:
  "isExpanded (run FloatBall_init
     [Down \<lparr>screenX = 100, screenY = 100\<rparr> 0, Reply (500, 400),
      Move \<lparr>screenX = 103, screenY = 98\<rparr>, Up 150]) \<and>
   ipc_sent (run FloatBall_init
     [Down \<lparr>screenX = 100, screenY = 100\<rparr> 0, Reply (500, 400),
      Move \<lparr>screenX = 103, screenY = 98\<rparr>, Up 150]) = [Ipc_getPosition]"
  using click_after_reply[OF idle_init, of "[]" "[\<lparr>screenX = 103, screenY = 98\<rparr>]"
      "\<lparr>screenX = 100, screenY = 100\<rparr>" 150 0 "(500, 400)"]
  by (simp add: FloatBall_init_def)

text \<open>
  Claim C5 says that every pointer cycle that starts on the collapsed widget, keeps all moves
  within 5 pixels and is released less than 200 ms after the press is a click: \<open>isExpanded\<close>
  toggles and no position-set message is sent. The comment above the test in
  \<open>handleMouseUp\<close> says the same. The code misses it when the button is released before the
  reply to \<open>getPosition\<close> has arrived, because \<open>handleMouseUp\<close> is attached to the document
  only in the \<open>then\<close> callback. On the initial widget, a press at time 0 and a release at
  time 150 with no movement: no handler runs at the release and the widget stays collapsed,
  whether or not the reply comes later. When it comes, the pair of listeners is attached
  after the release, and the next pointer-move beyond 5 pixels moves the window with no
  button held.
\<close>

theorem C5_release_before_reply:
  "idle FloatBall_init \<and> (150::int) - 0 < 200 \<and>
   \<not> isExpanded (run FloatBall_init [Down \<lparr>screenX = 100, screenY = 100\<rparr> 0, Up 150]) \<and>
   \<not> isExpanded (run FloatBall_init
        [Down \<lparr>screenX = 100, screenY = 100\<rparr> 0, Up 150, Reply (500, 400)]) \<and>
   document_listeners (run FloatBall_init
        [Down \<lparr>screenX = 100, screenY = 100\<rparr> 0, Up 150, Reply (500, 400)]) = [False] \<and>
   ipc_sent (run FloatBall_init
        [Down \<lparr>screenX = 100, screenY = 100\<rparr> 0, Up 150, Reply (500, 400),
         Move \<lparr>screenX = 120, screenY = 110\<rparr>])
     = [Ipc_getPosition, Ipc_setPosition 520 410]"
  by (simp add: idle_def FloatBall_init_def run_def handleMouseDown_def document_mouseup_def
      position_received_def document_mousemove_def handleMouseMove_def Let_def)

text \<open>
  Claim C6. In a pointer cycle on the idle widget in which the position \<open>p\<close> has been received
  (moves before it, \<open>early\<close>, are dropped): while the moves stay within 5 pixels on both axes
  the cycle is not dragging; the first move \<open>m\<close> with \<open>|dx| > 5\<close> or \<open>|dy| > 5\<close> sets
  \<open>isDraggingRef\<close>, which stays set; that move and every later one send one position-set
  message, \<open>p\<close> plus the move's offset from the press coordinates; and the release, whenever it
  comes, leaves \<open>isExpanded\<close> as it was. Pressing at \<open>(100, 100)\<close> with the window at
  \<open>(500, 400)\<close> and moving to \<open>(120, 110)\<close> sends \<open>(520, 410)\<close>.
\<close>

theorem C6_drag:
  assumes "idle fb"
    and "\<forall>q \<in> set pre. max \<bar>screenX q - screenX e\<bar> \<bar>screenY q - screenY e\<bar> \<le> 5"
    and "\<bar>screenX m - screenX e\<bar> > 5 \<or> \<bar>screenY m - screenY e\<bar> > 5"
  shows "(\<forall>k. \<not> isDraggingRef
                 (run fb (Down e tdown # map Move early @ [Reply p] @ map Move (take k pre)))) \<and>
         (\<forall>k. isDraggingRef
                 (run fb (Down e tdown # map Move early @ [Reply p] @ map Move (pre @ m # take k post))) \<and>
               ipc_sent
                 (run fb (Down e tdown # map Move early @ [Reply p] @ map Move (pre @ m # take k post)))
               = ipc_sent fb @ [Ipc_getPosition] @
                 map (\<lambda>q. Ipc_setPosition (fst p + (screenX q - screenX e))
                                          (snd p + (screenY q - screenY e))) (m # take k post)) \<and>
         isExpanded
           (run fb (Down e tdown # map Move early @ [Reply p] @ map Move (pre @ m # post) @ [Up tup]))
           = isExpanded fb \<and>
         ipc_sent (run FloatBall_init
            [Down \<lparr>screenX = 100, screenY = 100\<rparr> tdown, Reply (500, 400),
             Move \<lparr>screenX = 120, screenY = 110\<rparr>])
           = [Ipc_getPosition, Ipc_setPosition 520 410]"
proof -
  have w: "\<forall>q \<in> set pre. \<bar>screenX q - screenX e\<bar> \<le> 5 \<and> \<bar>screenY q - screenY e\<bar> \<le> 5"
    using assms(2) by simp
  have wk: "\<forall>q \<in> set (take k pre). \<bar>screenX q - screenX e\<bar> \<le> 5 \<and> \<bar>screenY q - screenY e\<bar> \<le> 5"
    for k
    using w by (meson in_set_takeD)
  have a: "\<not> isDraggingRef (run fb (Down e tdown # map Move early @ [Reply p] @ map Move (take k pre)))"
    for k
    by (simp add: armed_then[OF assms(1)] tracked_within[OF wk]) (simp add: armed_def)
  have b: "isDraggingRef
             (run fb (Down e tdown # map Move early @ [Reply p] @ map Move (pre @ m # post'))) \<and>
           ipc_sent
             (run fb (Down e tdown # map Move early @ [Reply p] @ map Move (pre @ m # post')))
           = ipc_sent fb @ [Ipc_getPosition] @
             map (\<lambda>q. Ipc_setPosition (fst p + (screenX q - screenX e))
                                      (snd p + (screenY q - screenY e))) (m # post')"
    for post'
    by (simp only: append_Cons append_Nil armed_then[OF assms(1)] tracked_drag[OF w assms(3)]) simp
  have "run fb (Down e tdown # map Move early @ [Reply p] @ map Move (pre @ m # post) @ [Up tup])
      = document_mouseup (run (armed fb e tdown p) (map Move (pre @ m # post))) tup"
    by (simp only: append_Cons append_Nil armed_then[OF assms(1)])
       (simp add: run_append run_Cons)
  then have c: "isExpanded
           (run fb (Down e tdown # map Move early @ [Reply p] @ map Move (pre @ m # post) @ [Up tup]))
           = isExpanded fb"
    by (simp only: tracked_drag[OF w assms(3)])
       (simp add: document_mouseup_def handleMouseUp_def armed_def)
  have d: "ipc_sent (run FloatBall_init
            [Down \<lparr>screenX = 100, screenY = 100\<rparr> tdown, Reply (500, 400),
             Move \<lparr>screenX = 120, screenY = 110\<rparr>])
           = [Ipc_getPosition, Ipc_setPosition 520 410]"
    by (simp add: FloatBall_init_def run_def handleMouseDown_def position_received_def
        document_mousemove_def handleMouseMove_def Let_def)
  show ?thesis using a b c d by blast
qed

theorem C6_witness:
  "ipc_sent (run FloatBall_init
      [Down \<lparr>screenX = 100, screenY = 100\<rparr> 0, Reply (500, 400),
       Move \<lparr>screenX = 103, screenY = 100\<rparr>,
       Move \<lparr>screenX = 108, screenY = 100\<rparr>, Move \<lparr>screenX = 120, screenY = 110\<rparr>])
     = [Ipc_getPosition, Ipc_setPosition 508 400, Ipc_setPosition 520 410] \<and>
   \<not> isExpanded (run FloatBall_init
      [Down \<lparr>screenX = 100, screenY = 100\<rparr> 0, Reply (500, 400),
       Move \<lparr>screenX = 103, screenY = 100\<rparr>,
       Move \<lparr>screenX = 108, screenY = 100\<rparr>, Move \<lparr>screenX = 120, screenY = 110\<rparr>, Up 150])"
proof -
  have h2: "\<forall>q \<in> set [\<lparr>screenX = 103, screenY = 100\<rparr>].
      max \<bar>screenX q - screenX \<lparr>screenX = 100, screenY = 100\<rparr>\<bar>
          \<bar>screenY q - screenY \<lparr>screenX = 100, screenY = 100\<rparr>\<bar> \<le> 5"
    by simp
  have h3: "\<bar>screenX \<lparr>screenX = 108, screenY = 100\<rparr> - screenX \<lparr>screenX = 100, screenY = 100\<rparr>\<bar> > 5
     \<or> \<bar>screenY \<lparr>screenX = 108, screenY = 100\<rparr> - screenY \<lparr>screenX = 100, screenY = 100\<rparr>\<bar> > 5"
    by simp
  note t = C6_drag[OF idle_init h2 h3, of 0 "[]" "(500, 400)"
      "[\<lparr>screenX = 120, screenY = 110\<rparr>]" 150]
  note tk = t[THEN conjunct2, THEN conjunct1, THEN spec[where x = "1::nat"], THEN conjunct2]
  from tk have m: "ipc_sent (run FloatBall_init
      [Down \<lparr>screenX = 100, screenY = 100\<rparr> 0, Reply (500, 400),
       Move \<lparr>screenX = 103, screenY = 100\<rparr>,
       Move \<lparr>screenX = 108, screenY = 100\<rparr>, Move \<lparr>screenX = 120, screenY = 110\<rparr>])
     = [Ipc_getPosition, Ipc_setPosition 508 400, Ipc_setPosition 520 410]"
    by (simp add: FloatBall_init_def)
  note tu = t[THEN conjunct2, THEN conjunct2, THEN conjunct1]
  from tu have u: "\<not> isExpanded (run FloatBall_init
      [Down \<lparr>screenX = 100, screenY = 100\<rparr> 0, Reply (500, 400),
       Move \<lparr>screenX = 103, screenY = 100\<rparr>,
       Move \<lparr>screenX = 108, screenY = 100\<rparr>, Move \<lparr>screenX = 120, screenY = 110\<rparr>, Up 150])"
    by (simp add: FloatBall_init_def)
  show ?thesis by (rule conjI[OF m u])
qed

text \<open>
  Claim C10. Without a live \<open>floatBall\<close> window the position query returns the pair
  \<open>(0, 0)\<close>; the widget stores it as the window's initial position, and a drag started then
  sends \<open>(0, 0)\<close> plus the offset from the press coordinates.
\<close>

theorem C10_position_query_without_window:
  assumes "getWindow s ''floatBall'' = None" and "idle fb"
    and "\<forall>q \<in> set pre. max \<bar>screenX q - screenX e\<bar> \<bar>screenY q - screenY e\<bar> \<le> 5"
    and "\<bar>screenX m - screenX e\<bar> > 5 \<or> \<bar>screenY m - screenY e\<bar> > 5"
  shows "handleGetPosition s = (0, 0) \<and>
         windowInitialXRef (run fb (Down e tdown # map Move early @ [Reply (position_reply s)])) = 0 \<and>
         windowInitialYRef (run fb (Down e tdown # map Move early @ [Reply (position_reply s)])) = 0 \<and>
         ipc_sent (run fb (Down e tdown # map Move early @ [Reply (position_reply s)]
                            @ map Move (pre @ m # post)))
           = ipc_sent fb @ [Ipc_getPosition] @
             map (\<lambda>q. Ipc_setPosition (0 + (screenX q - screenX e))
                                      (0 + (screenY q - screenY e))) (m # post)"
proof -
  have g: "handleGetPosition s = (0, 0)"
    using assms(1) by (simp add: handleGetPosition_def)
  then have r: "position_reply s = (0, 0)"
    by (simp add: position_reply_def)
  have w: "\<forall>q \<in> set pre. \<bar>screenX q - screenX e\<bar> \<le> 5 \<and> \<bar>screenY q - screenY e\<bar> \<le> 5"
    using assms(3) by simp
  have i: "windowInitialXRef (run fb (Down e tdown # map Move early @ [Reply (position_reply s)])) = 0"
      "windowInitialYRef (run fb (Down e tdown # map Move early @ [Reply (position_reply s)])) = 0"
    by (simp_all add: armed_state[OF assms(2)] r armed_def)
  have d: "ipc_sent (run fb (Down e tdown # map Move early @ [Reply (position_reply s)]
                            @ map Move (pre @ m # post)))
           = ipc_sent fb @ [Ipc_getPosition] @
             map (\<lambda>q. Ipc_setPosition (0 + (screenX q - screenX e))
                                      (0 + (screenY q - screenY e))) (m # post)"
    by (simp only: append_Cons append_Nil armed_then[OF assms(2)] tracked_drag[OF w assms(4)] r)
       simp
  show ?thesis using g i d by blast
qed

theorem C10_witness:
  "handleGetPosition init = (0, 0) \<and>
   ipc_sent (run FloatBall_init
     [Down \<lparr>screenX = 100, screenY = 100\<rparr> 0, Reply (position_reply init),
      Move \<lparr>screenX = 120, screenY = 110\<rparr>])
     = [Ipc_getPosition, Ipc_setPosition 20 10]"
proof -
  have h3: "\<forall>q \<in> set []. max \<bar>screenX q - screenX \<lparr>screenX = 100, screenY = 100\<rparr>\<bar>
          \<bar>screenY q - screenY \<lparr>screenX = 100, screenY = 100\<rparr>\<bar> \<le> 5"
    by simp
  have h4: "\<bar>screenX \<lparr>screenX = 120, screenY = 110\<rparr> - screenX \<lparr>screenX = 100, screenY = 100\<rparr>\<bar> > 5
     \<or> \<bar>screenY \<lparr>screenX = 120, screenY = 110\<rparr> - screenY \<lparr>screenX = 100, screenY = 100\<rparr>\<bar> > 5"
    by simp
  show ?thesis
    using C10_position_query_without_window[OF getWindow_init idle_init h3 h4,
        where tdown = 0 and early = "[]" and post = "[]"]
    by (simp add: FloatBall_init_def)
qed

end
